theory Spec2Isabelle
  imports Complex_Main "HOL-Library.Sublist"
begin

section \<open>Python values, dictionaries and errors\<close>

text \<open>
  The script works on JSON data held in Python dictionaries. The values that reach the
  code under study are numbers, \<open>None\<close> (JSON null, or the result of \<open>dict.get\<close> on a
  missing key) and lists of strings (genre tags). A Python string is the list of its
  Unicode code points; the keys of the dictionaries and the labels, which the source
  writes as ASCII literals, stay HOL strings. A number is a real, and the
  literals of the rules are the decimal fractions written in the source: Python compares
  numbers by value, and the rounding of values and literals to binary floating point is
  left out (it shows only on a value that differs from a literal and rounds to the same
  float), as is not-a-number. An exception is a value \<open>Inl e\<close> of the result type.
\<close>

datatype error = TypeError

type_synonym pystr = "nat list"

datatype pyval = PNone | PNum real | PList "pystr list"

type_synonym pydict = "string \<rightharpoonup> pyval"

text \<open>\<open>d.get(k, default)\<close>\<close>

definition dict_get :: "pydict \<Rightarrow> string \<Rightarrow> pyval \<Rightarrow> pyval" where
  "dict_get d k dflt = (case d k of None \<Rightarrow> dflt | Some v \<Rightarrow> v)"

text \<open>
  Comparison of a value with a float literal. Python 3 raises \<open>TypeError\<close> when the
  left operand is \<open>None\<close> or a list.
\<close>

fun py_gt :: "pyval \<Rightarrow> real \<Rightarrow> error + bool" where
  "py_gt (PNum x) c = Inr (c < x)"
| "py_gt _ c = Inl TypeError"

fun py_lt :: "pyval \<Rightarrow> real \<Rightarrow> error + bool" where
  "py_lt (PNum x) c = Inr (x < c)"
| "py_lt _ c = Inl TypeError"

fun py_ge :: "pyval \<Rightarrow> real \<Rightarrow> error + bool" where
  "py_ge (PNum x) c = Inr (c \<le> x)"
| "py_ge _ c = Inl TypeError"

fun py_le :: "pyval \<Rightarrow> real \<Rightarrow> error + bool" where
  "py_le (PNum x) c = Inr (x \<le> c)"
| "py_le _ c = Inl TypeError"

text \<open>
  \<open>a and b\<close> evaluates \<open>b\<close> only when \<open>a\<close> is true, so an exception in \<open>b\<close> is
  raised only then.
\<close>

definition py_and :: "error + bool \<Rightarrow> error + bool \<Rightarrow> error + bool" where
  "py_and a b = (case a of Inl e \<Rightarrow> Inl e | Inr t \<Rightarrow> (if t then b else Inr False))"

text \<open>\<open>if c: return t\<close> followed by the rest \<open>e\<close> of the function body.\<close>

definition py_if :: "error + bool \<Rightarrow> error + 'a \<Rightarrow> error + 'a \<Rightarrow> error + 'a" where
  "py_if c t e = (case c of Inl err \<Rightarrow> Inl err | Inr b \<Rightarrow> (if b then t else e))"

section \<open>Strings\<close>

text \<open>The code points of a string literal of the source.\<close>

definition cps :: "string \<Rightarrow> pystr" where
  "cps s = map of_char s"

text \<open>
  \<open>str.lower\<close>, code point by code point. Of Unicode's lower-case mapping the
  definition has every code point whose image holds an ASCII character: the capitals
  \<open>A\<close> to \<open>Z\<close>, U+0130 (capital I with dot above, which becomes \<open>i\<close> followed by
  U+0307) and U+212A (the Kelvin sign, which becomes \<open>k\<close>). Every other code point is
  kept as it is; \<open>str.lower\<close> turns it into one or more code points outside ASCII, so
  the ASCII text \<open>lo-fi\<close> occurs in the lowered string of the model exactly when it
  occurs in the one Python computes.
\<close>

definition lower_cp :: "nat \<Rightarrow> pystr" where
  "lower_cp c =
     (if 65 \<le> c \<and> c \<le> 90 then [c + 32]
      else if c = 304 then [105, 775]
      else if c = 8490 then [107]
      else [c])"

definition lower :: "pystr \<Rightarrow> pystr" where
  "lower s = concat (map lower_cp s)"

text \<open>
  \<open>str.upper\<close>, in the same way: the small letters \<open>a\<close> to \<open>z\<close> and the code
  points outside ASCII whose upper-case image holds an ASCII character, among them
  U+0131 (dotless small i), which becomes \<open>I\<close>. The source does not call it; it says
  what putting a genre string in capitals is.
\<close>

definition upper_table :: "(nat \<times> pystr) list" where
  "upper_table =
     [(223, [83, 83]), (305, [73]), (329, [700, 78]), (383, [83]), (496, [74, 780]),
      (7830, [72, 817]), (7831, [84, 776]), (7832, [87, 778]), (7833, [89, 778]),
      (7834, [65, 702]), (64256, [70, 70]), (64257, [70, 73]), (64258, [70, 76]),
      (64259, [70, 70, 73]), (64260, [70, 70, 76]), (64261, [83, 84]), (64262, [83, 84])]"

definition upper_cp :: "nat \<Rightarrow> pystr" where
  "upper_cp c =
     (if 97 \<le> c \<and> c \<le> 122 then [c - 32]
      else case map_of upper_table c of Some u \<Rightarrow> u | None \<Rightarrow> [c])"

definition upper :: "pystr \<Rightarrow> pystr" where
  "upper s = concat (map upper_cp s)"

text \<open>\<open>needle in hay\<close> for strings: \<open>needle\<close> occurs as a contiguous part of \<open>hay\<close>.\<close>

primrec str_in :: "'a list \<Rightarrow> 'a list \<Rightarrow> bool" where
  "str_in needle [] = (needle = [])"
| "str_in needle (c # cs) = (prefix needle (c # cs) \<or> str_in needle cs)"

section \<open>The vibe classifier\<close>

definition VIBES :: "string list" where
  "VIBES = [''Chill Vibes'', ''Sad Bops'', ''Hype Gym'', ''Night Drive'', ''Lo-Fi Focus'',
     ''Romantic Mood'']"

text \<open>
  \<open>[g.lower() for g in features.get("genres", [])]\<close>: iterating over \<open>None\<close> or a number
  raises \<open>TypeError\<close>.
\<close>

fun lower_genres :: "pyval \<Rightarrow> error + pystr list" where
  "lower_genres (PList gs) = Inr (map lower gs)"
| "lower_genres _ = Inl TypeError"

text \<open>
  The rule cascade of \<open>classify_vibe\<close>: the five reads of the dictionary, then
  the six \<open>if ... return\<close> statements in the order of the source. The result is \<open>Some\<close> label
  when one of them returns and \<open>None\<close> when control falls through all six.
\<close>

definition vibe_rules :: "pydict \<Rightarrow> error + string option" where
  "vibe_rules features =
     (let valence = dict_get features ''valence'' (PNum 0);
          energy = dict_get features ''energy'' (PNum 0);
          dance = dict_get features ''danceability'' (PNum 0);
          tempo = dict_get features ''tempo'' (PNum 0)
      in case lower_genres (dict_get features ''genres'' (PList [])) of
           Inl e \<Rightarrow> Inl e
         | Inr genres \<Rightarrow>
             py_if (py_and (py_gt valence 0.7) (py_gt energy 0.7)) (Inr (Some ''Hype Gym''))
            (py_if (py_and (py_and (py_gt valence 0.6) (py_gt dance 0.6)) (py_lt energy 0.6))
               (Inr (Some ''Chill Vibes''))
            (py_if (py_and (py_lt valence 0.3) (py_lt energy 0.5)) (Inr (Some ''Sad Bops''))
            (py_if (py_and (py_and (py_ge tempo 100) (py_le tempo 130)) (py_ge energy 0.5))
               (Inr (Some ''Night Drive''))
            (py_if (Inr (\<exists>g \<in> set genres. str_in (cps ''lo-fi'') g)) (Inr (Some ''Lo-Fi Focus''))
            (py_if (py_and (py_ge valence 0.5) (py_lt energy 0.6)) (Inr (Some ''Romantic Mood''))
               (Inr None)))))))"

text \<open>
  The optional \<open>openai\<close> module: \<open>None\<close> when the import failed, otherwise the module
  with its global \<open>api_key\<close>.
\<close>

record openai_module =
  api_key :: "string option"

text \<open>Truth value of an optional string: \<open>None\<close> and the empty string are false.\<close>

definition truthy :: "string option \<Rightarrow> bool" where
  "truthy s = (case s of None \<Rightarrow> False | Some t \<Rightarrow> t \<noteq> [])"

text \<open>
  \<open>classify_vibe(features, prompt, openai_api_key)\<close>, with the module global \<open>openai\<close>
  passed in and returned. The hook after the rules stores the key in the module and does
  nothing else; the default label follows.
\<close>

definition classify_vibe ::
  "openai_module option \<Rightarrow> pydict \<Rightarrow> string option \<Rightarrow> string option
    \<Rightarrow> (error + string) \<times> openai_module option" where
  "classify_vibe openai features prompt openai_api_key =
     (case vibe_rules features of
        Inl e \<Rightarrow> (Inl e, openai)
      | Inr (Some vibe) \<Rightarrow> (Inr vibe, openai)
      | Inr None \<Rightarrow>
          (Inr ''Chill Vibes'',
           if truthy prompt \<and> truthy openai_api_key \<and> openai \<noteq> None
           then map_option (\<lambda>m. m\<lparr>api_key := openai_api_key\<rparr>) openai
           else openai))"

section \<open>Descriptor sets as the data model describes them\<close>

text \<open>
  A descriptor set holds any subset of the four numeric fields, each a number when it is
  present, and possibly a list of genre strings.
\<close>

definition numeric_or_absent :: "pydict \<Rightarrow> string \<Rightarrow> bool" where
  "numeric_or_absent d k = (case d k of None \<Rightarrow> True | Some (PNum x) \<Rightarrow> True | Some _ \<Rightarrow> False)"

definition genres_or_absent :: "pydict \<Rightarrow> bool" where
  "genres_or_absent d =
     (case d ''genres'' of None \<Rightarrow> True | Some (PList gs) \<Rightarrow> True | Some _ \<Rightarrow> False)"

definition descriptor_set :: "pydict \<Rightarrow> bool" where
  "descriptor_set d =
     (numeric_or_absent d ''valence'' \<and> numeric_or_absent d ''energy'' \<and>
      numeric_or_absent d ''danceability'' \<and> numeric_or_absent d ''tempo'' \<and>
      genres_or_absent d)"

text \<open>The value of a numeric field, zero when the field is absent.\<close>

definition num_field :: "pydict \<Rightarrow> string \<Rightarrow> real" where
  "num_field d k = (case d k of Some (PNum x) \<Rightarrow> x | _ \<Rightarrow> 0)"

text \<open>The genre strings of a descriptor set, none when the field is absent.\<close>

definition genre_tags :: "pydict \<Rightarrow> pystr list" where
  "genre_tags d = (case d ''genres'' of Some (PList gs) \<Rightarrow> gs | _ \<Rightarrow> [])"

text \<open>The descriptor set with every absent numeric field set to zero.\<close>

definition numeric_keys :: "string list" where
  "numeric_keys = [''valence'', ''energy'', ''danceability'', ''tempo'']"

definition fill_zero :: "pydict \<Rightarrow> pydict" where
  "fill_zero d = (\<lambda>k. if k \<in> set numeric_keys \<and> d k = None then Some (PNum 0) else d k)"

subsection \<open>Case-insensitive comparison\<close>

text \<open>
  \<open>needle\<close> occurs in \<open>hay\<close> under case-insensitive comparison: it does once both
  are in small letters.
\<close>

definition contains_ci :: "pystr \<Rightarrow> pystr \<Rightarrow> bool" where
  "contains_ci needle hay = str_in (lower needle) (lower hay)"

text \<open>
  The case of ASCII letters, stated without \<open>lower\<close>. Two code points are the same
  letter up to ASCII case when they are equal or one is an ASCII capital and the other the
  small letter 32 code points above it.
\<close>

definition same_letter :: "nat \<Rightarrow> nat \<Rightarrow> bool" where
  "same_letter a b =
     (a = b \<or> (65 \<le> a \<and> a \<le> 90 \<and> b = a + 32) \<or> (65 \<le> b \<and> b \<le> 90 \<and> a = b + 32))"

text \<open>Two strings that differ in the case of ASCII letters only.\<close>

definition case_variant :: "pystr \<Rightarrow> pystr \<Rightarrow> bool" where
  "case_variant s t = list_all2 same_letter s t"

fun prefix_ci :: "pystr \<Rightarrow> pystr \<Rightarrow> bool" where
  "prefix_ci [] hay = True"
| "prefix_ci (n # ns) [] = False"
| "prefix_ci (n # ns) (h # hs) = (same_letter n h \<and> prefix_ci ns hs)"

text \<open>\<open>needle\<close> occurs in \<open>hay\<close> as a contiguous part, up to the case of ASCII letters.\<close>

primrec contains_ascii_ci :: "pystr \<Rightarrow> pystr \<Rightarrow> bool" where
  "contains_ascii_ci needle [] = (needle = [])"
| "contains_ascii_ci needle (h # hs) =
     (prefix_ci needle (h # hs) \<or> contains_ascii_ci needle hs)"

text \<open>
  Three genre strings: \<open>lo-f\<close> followed by U+0131 (dotless small i), \<open>LO-F\<close>
  followed by U+0130 (capital I with dot above), and \<open>LO-FI\<close>.
\<close>

definition lofi_dotless :: pystr where
  "lofi_dotless = cps ''lo-f'' @ [305]"

definition lofi_dotted :: pystr where
  "lofi_dotted = cps ''LO-F'' @ [304]"

definition lofi_capitals :: pystr where
  "lofi_capitals = cps ''LO-FI''"

text \<open>The label the seven rules of the specification give, first match first.\<close>

definition spec_label :: "real \<Rightarrow> real \<Rightarrow> real \<Rightarrow> real \<Rightarrow> pystr list \<Rightarrow> string" where
  "spec_label valence energy dance tempo genres =
     (if 0.7 < valence \<and> 0.7 < energy then ''Hype Gym''
      else if 0.6 < valence \<and> 0.6 < dance \<and> energy < 0.6 then ''Chill Vibes''
      else if valence < 0.3 \<and> energy < 0.5 then ''Sad Bops''
      else if 100 \<le> tempo \<and> tempo \<le> 130 \<and> 0.5 \<le> energy then ''Night Drive''
      else if (\<exists>g \<in> set genres. contains_ci (cps ''lo-fi'') g) then ''Lo-Fi Focus''
      else if 0.5 \<le> valence \<and> energy < 0.6 then ''Romantic Mood''
      else ''Chill Vibes'')"

section \<open>The paginated fetcher\<close>

text \<open>
  A request to \<open>sp.current_user_saved_tracks\<close> is the pair of its \<open>limit\<close> and
  \<open>offset\<close> arguments. The service is any function from the requests made so far and the
  present request to a batch: \<open>Some items\<close>, or \<open>None\<close> for a batch without an
  \<open>items\<close> key. Nothing is assumed about what it returns.
\<close>

type_synonym request = "int \<times> nat"

type_synonym 'a library_service = "request list \<Rightarrow> request \<Rightarrow> 'a list option"

text \<open>\<open>batch.get("items", [])\<close>\<close>

definition batch_items :: "'a list option \<Rightarrow> 'a list" where
  "batch_items batch = (case batch of None \<Rightarrow> [] | Some items \<Rightarrow> items)"

text \<open>
  The \<open>while\<close> loop of \<open>fetch_liked_songs\<close>. Besides the tracks it returns the
  exchanges with the service in the order they were made, each request with the items
  that came back. The measure of the termination proof is what is left to the cap: an
  iteration either leaves the loop or adds at least one item.
\<close>

function fetch_loop ::
  "'a library_service \<Rightarrow> int \<Rightarrow> 'a list \<Rightarrow> nat \<Rightarrow> (request \<times> 'a list) list
    \<Rightarrow> 'a list \<times> (request \<times> 'a list) list" where
  "fetch_loop sp limit tracks offset calls =
     (if int (length tracks) < limit then
        let req = (min 50 (limit - int (length tracks)), offset);
            items = batch_items (sp (map fst calls) req)
        in if items = [] then (tracks, calls @ [(req, items)])
           else fetch_loop sp limit (tracks @ items) (offset + length items)
                  (calls @ [(req, items)])
      else (tracks, calls))"
  by pat_completeness auto
termination
  by (relation "measure (\<lambda>(sp, limit, tracks, offset, calls). nat (limit - int (length tracks)))")
    auto

declare fetch_loop.simps [simp del]

definition fetch_liked_songs ::
  "'a library_service \<Rightarrow> int \<Rightarrow> 'a list \<times> (request \<times> 'a list) list" where
  "fetch_liked_songs sp limit = fetch_loop sp limit [] 0 []"

text \<open>
  Every request asks for \<open>min(50, cap - collected)\<close> items at offset \<open>collected\<close>,
  where \<open>collected\<close> starts at \<open>n\<close> and grows by the length of each page returned.
\<close>

fun requests_ok :: "int \<Rightarrow> nat \<Rightarrow> (request \<times> 'a list) list \<Rightarrow> bool" where
  "requests_ok cap n [] = True"
| "requests_ok cap n ((req, page) # rest) =
     (req = (min 50 (cap - int n), n) \<and> requests_ok cap (n + length page) rest)"

text \<open>Every page is the answer of the service to its request, after the requests before it.\<close>

fun answered_by :: "'a library_service \<Rightarrow> request list \<Rightarrow> (request \<times> 'a list) list \<Rightarrow> bool" where
  "answered_by sp hist [] = True"
| "answered_by sp hist ((req, page) # rest) =
     (page = batch_items (sp hist req) \<and> answered_by sp (hist @ [req]) rest)"

text \<open>No page holds more items than its request asked for.\<close>

fun within_requests :: "(request \<times> 'a list) list \<Rightarrow> bool" where
  "within_requests [] = True"
| "within_requests ((req, page) # rest) = (int (length page) \<le> fst req \<and> within_requests rest)"

text \<open>
  Two services to run the fetcher on: a library that answers a request with the slice
  asked for, and a service that answers every request with fifty items.
\<close>

definition library_pages :: "'a list \<Rightarrow> 'a library_service" where
  "library_pages lib hist req = Some (take (nat (fst req)) (drop (snd req) lib))"

definition always_50 :: "nat library_service" where
  "always_50 hist req = Some (replicate 50 0)"

section \<open>The feature aggregator\<close>

text \<open>
  An entry of the fetched list holds a track object or none (\<open>"track": null\<close> for a
  deleted or unavailable track). Of a track object the aggregator reads the identifier and
  the identifiers of the listed artists (none when the \<open>artists\<close> field is missing or
  empty).
\<close>

record track_object =
  track_id :: string
  track_artists :: "string list"

record saved_item =
  track :: "track_object option"

text \<open>
  An entry of the answer of \<open>sp.audio_features\<close> is null or a record with the track's
  identifier and whichever values the service put in it.
\<close>

record audio_feature =
  af_id :: string
  af_values :: pydict

text \<open>
  The two bulk endpoints, as functions from the identifiers sent to the list received:
  feature records or null, and artist objects.
\<close>

record spotify =
  audio_features :: "string list \<Rightarrow> audio_feature option list"
  artists :: "string list \<Rightarrow> pydict list"

type_synonym features = "string \<rightharpoonup> pydict"

text \<open>
  The body of the inner loop over \<open>audio_feats\<close>: a null entry is skipped, any other
  is stored under its identifier with the four values read by \<open>af.get\<close>, which gives
  \<open>None\<close> for a value the record does not hold.
\<close>

definition store_af :: "audio_feature option \<Rightarrow> features \<Rightarrow> features" where
  "store_af af features =
     (case af of
        None \<Rightarrow> features
      | Some a \<Rightarrow>
          features(af_id a \<mapsto>
            [''valence'' \<mapsto> dict_get (af_values a) ''valence'' PNone,
             ''energy'' \<mapsto> dict_get (af_values a) ''energy'' PNone,
             ''danceability'' \<mapsto> dict_get (af_values a) ''danceability'' PNone,
             ''tempo'' \<mapsto> dict_get (af_values a) ''tempo'' PNone]))"

text \<open>The loop over the identifiers in chunks of 100.\<close>

function numeric_pass :: "spotify \<Rightarrow> string list \<Rightarrow> nat \<Rightarrow> features \<Rightarrow> features" where
  "numeric_pass sp track_ids chunk features =
     (if chunk < length track_ids then
        let ids = take 100 (drop chunk track_ids);
            audio_feats = audio_features sp ids
        in numeric_pass sp track_ids (chunk + 100) (fold store_af audio_feats features)
      else features)"
  by pat_completeness auto
termination
  by (relation "measure (\<lambda>(sp, track_ids, chunk, features). length track_ids - chunk)") auto

declare numeric_pass.simps [simp del]

text \<open>
  The body of the loop over \<open>zip(tracks[chunk : chunk + len(ids)], artists)\<close>. Reading
  \<open>track["track"]["id"]\<close> of an entry without a track object raises \<open>TypeError\<close>.
\<close>

fun merge_genres :: "(saved_item \<times> pydict) list \<Rightarrow> features \<Rightarrow> error + features" where
  "merge_genres [] features = Inr features"
| "merge_genres ((item, artist) # rest) features =
     (case track item of
        None \<Rightarrow> Inl TypeError
      | Some t \<Rightarrow>
          (let tid = track_id t; genres = dict_get artist ''genres'' (PList [])
           in merge_genres rest
                (case features tid of
                   Some d \<Rightarrow> features(tid \<mapsto> d(''genres'' \<mapsto> genres))
                 | None \<Rightarrow> features(tid \<mapsto> [''genres'' \<mapsto> genres]))))"

text \<open>The loop over the artist identifiers in chunks of 50.\<close>

function genre_pass ::
  "spotify \<Rightarrow> saved_item list \<Rightarrow> string list \<Rightarrow> nat \<Rightarrow> features \<Rightarrow> error + features" where
  "genre_pass sp tracks artist_ids chunk features =
     (if chunk < length artist_ids then
        let ids = take 50 (drop chunk artist_ids);
            arts = artists sp ids
        in case merge_genres (zip (take (length ids) (drop chunk tracks)) arts) features of
             Inl e \<Rightarrow> Inl e
           | Inr features' \<Rightarrow> genre_pass sp tracks artist_ids (chunk + 50) features'
      else Inr features)"
  by pat_completeness auto
termination
  by (relation "measure (\<lambda>(sp, tracks, artist_ids, chunk, features). length artist_ids - chunk)")
    auto

declare genre_pass.simps [simp del]

text \<open>The track objects of the entries that have one.\<close>

definition track_objects :: "saved_item list \<Rightarrow> track_object list" where
  "track_objects tracks = List.map_filter track tracks"

definition get_audio_features :: "spotify \<Rightarrow> saved_item list \<Rightarrow> error + features" where
  "get_audio_features sp tracks =
     (let track_ids = map track_id (track_objects tracks);
          features = numeric_pass sp track_ids 0 Map.empty;
          artist_ids = map (\<lambda>t. hd (track_artists t))
                         (filter (\<lambda>t. track_artists t \<noteq> []) (track_objects tracks))
      in genre_pass sp tracks artist_ids 0 features)"

text \<open>\<open>features.get(tid, {})\<close>, as \<open>main\<close> reads a track's descriptor set.\<close>

definition features_get :: "features \<Rightarrow> string \<Rightarrow> pydict" where
  "features_get features tid = (case features tid of None \<Rightarrow> Map.empty | Some d \<Rightarrow> d)"

subsection \<open>Inputs on which the aggregator is run below\<close>

definition item_of :: "string \<Rightarrow> string list \<Rightarrow> saved_item" where
  "item_of tid arts = \<lparr>track = Some \<lparr>track_id = tid, track_artists = arts\<rparr>\<rparr>"

definition no_track :: saved_item where
  "no_track = \<lparr>track = None\<rparr>"

text \<open>
  A service that has no feature record for any track and, for the artist \<open>a\<close>, the
  one genre \<open>genre of a\<close>.
\<close>

definition tagged_service :: spotify where
  "tagged_service =
     \<lparr>audio_features = map (\<lambda>i. None),
      artists = map (\<lambda>a. [''genres'' \<mapsto> PList [cps (''genre of '' @ a)]])\<rparr>"

text \<open>
  A service that has valence 0.8 and energy 0.8 for every track and the one genre
  \<open>rock\<close> for every artist.
\<close>

definition full_service :: spotify where
  "full_service =
     \<lparr>audio_features =
        map (\<lambda>i. Some \<lparr>af_id = i, af_values = [''valence'' \<mapsto> PNum 0.8, ''energy'' \<mapsto> PNum 0.8]\<rparr>),
      artists = map (\<lambda>a. [''genres'' \<mapsto> PList [cps ''rock'']])\<rparr>"

text \<open>A service whose feature records hold the identifier and no value.\<close>

definition bare_service :: spotify where
  "bare_service =
     \<lparr>audio_features = map (\<lambda>i. Some \<lparr>af_id = i, af_values = Map.empty\<rparr>),
      artists = map (\<lambda>a. Map.empty)\<rparr>"

section \<open>The playlist materializer\<close>

text \<open>
  The remote account is the list of its playlists in the order of creation. The service
  chooses the identifier of a new playlist from the account as it stands.
\<close>

record playlist =
  pl_id :: string
  pl_user :: string
  pl_name :: string
  pl_public :: bool
  pl_description :: string
  pl_items :: "string list"

type_synonym account = "playlist list"

definition user_playlist_create ::
  "(account \<Rightarrow> string) \<Rightarrow> account \<Rightarrow> string \<Rightarrow> string \<Rightarrow> bool \<Rightarrow> string \<Rightarrow> playlist \<times> account" where
  "user_playlist_create new_id acct user name public description =
     (let p = \<lparr>pl_id = new_id acct, pl_user = user, pl_name = name, pl_public = public,
                pl_description = description, pl_items = []\<rparr>
      in (p, acct @ [p]))"

definition playlist_add_items :: "account \<Rightarrow> string \<Rightarrow> string list \<Rightarrow> account" where
  "playlist_add_items acct pid items =
     map (\<lambda>p. if pl_id p = pid then p\<lparr>pl_items := pl_items p @ items\<rparr> else p) acct"

text \<open>
  The loop over \<open>vibe_tracks.items()\<close>: the dictionary is the list of its items in
  insertion order, \<open>playlist_ids\<close> the dictionary being filled.
\<close>

fun playlists_loop ::
  "(account \<Rightarrow> string) \<Rightarrow> string \<Rightarrow> (string \<times> string list) list \<Rightarrow> (string \<rightharpoonup> string)
    \<Rightarrow> account \<Rightarrow> (string \<rightharpoonup> string) \<times> account" where
  "playlists_loop new_id user_id [] playlist_ids acct = (playlist_ids, acct)"
| "playlists_loop new_id user_id ((vibe, tracks) # rest) playlist_ids acct =
     (if tracks = [] then playlists_loop new_id user_id rest playlist_ids acct
      else
        let (playlist, acct1) =
              user_playlist_create new_id acct user_id vibe False (''VibePilot - '' @ vibe);
            acct2 = playlist_add_items acct1 (pl_id playlist) tracks
        in playlists_loop new_id user_id rest (playlist_ids(vibe \<mapsto> pl_id playlist)) acct2)"

definition create_playlists ::
  "(account \<Rightarrow> string) \<Rightarrow> account \<Rightarrow> string \<Rightarrow> (string \<times> string list) list
    \<Rightarrow> (string \<rightharpoonup> string) \<times> account" where
  "create_playlists new_id acct user_id vibe_tracks =
     playlists_loop new_id user_id vibe_tracks Map.empty acct"

text \<open>The labels of a grouping that have at least one track, in order.\<close>

definition nonempty_groups :: "(string \<times> string list) list \<Rightarrow> string list" where
  "nonempty_groups vibe_tracks = map fst (filter (\<lambda>g. snd g \<noteq> []) vibe_tracks)"

text \<open>An identifier service that numbers the playlists of the account.\<close>

definition numbered_id :: "account \<Rightarrow> string" where
  "numbered_id acct = replicate (Suc (length acct)) CHR ''p''"

section \<open>Facts about strings\<close>

lemmas str_eval = cps_def lower_def lower_cp_def

lemma str_in_sublist: "str_in needle hay = sublist needle hay"
  by (induction hay) (simp_all add: sublist_Cons_right)

lemma lower_append: "lower (xs @ ys) = lower xs @ lower ys"
  by (simp add: lower_def)

lemma same_letter_lower: "same_letter a b \<Longrightarrow> lower_cp a = lower_cp b"
  by (auto simp add: same_letter_def lower_cp_def)

lemma case_variant_lower: "case_variant s t \<Longrightarrow> lower s = lower t"
  unfolding case_variant_def
  by (induction s t rule: list_all2_induct) (simp_all add: lower_def same_letter_lower)

lemma case_variants_lower: "list_all2 case_variant gs gs' \<Longrightarrow> map lower gs = map lower gs'"
proof (induction gs gs' rule: list_all2_induct)
  case Nil
  show ?case by simp
next
  case (Cons g gs g' gs')
  from Cons.hyps(1) have "lower g = lower g'"
    by (rule case_variant_lower)
  with Cons.IH show ?case by simp
qed

lemma prefix_ci_split:
  "prefix_ci needle hay \<Longrightarrow> \<exists>sub rest. hay = sub @ rest \<and> case_variant needle sub"
proof (induction needle hay rule: prefix_ci.induct)
  case (1 hay)
  have "hay = [] @ hay" and "case_variant [] []"
    by (simp_all add: case_variant_def)
  then show ?case by blast
next
  case (2 n ns)
  then show ?case by simp
next
  case (3 n ns h hs)
  from "3.prems" have sl: "same_letter n h" and p: "prefix_ci ns hs"
    by simp_all
  from "3.IH" [OF p] obtain sub rest where hs: "hs = sub @ rest" and cv: "case_variant ns sub"
    by blast
  from hs have "h # hs = (h # sub) @ rest"
    by simp
  moreover from sl cv have "case_variant (n # ns) (h # sub)"
    by (simp add: case_variant_def)
  ultimately show ?case by blast
qed

lemma contains_ascii_ci_split:
  "contains_ascii_ci needle hay
     \<Longrightarrow> \<exists>ps sub ss. hay = ps @ sub @ ss \<and> case_variant needle sub"
proof (induction hay)
  case Nil
  then have "needle = []"
    by simp
  then have "[] = [] @ [] @ ([]::pystr)" and "case_variant needle []"
    by (simp_all add: case_variant_def)
  then show ?case by blast
next
  case (Cons h hs)
  from Cons.prems have "prefix_ci needle (h # hs) \<or> contains_ascii_ci needle hs"
    by simp
  then show ?case
  proof
    assume "prefix_ci needle (h # hs)"
    from prefix_ci_split [OF this] obtain sub rest where
      e: "h # hs = sub @ rest" and cv: "case_variant needle sub"
      by blast
    from e have "h # hs = [] @ sub @ rest"
      by simp
    with cv show ?thesis by blast
  next
    assume "contains_ascii_ci needle hs"
    from Cons.IH [OF this] obtain ps sub ss where
      e: "hs = ps @ sub @ ss" and cv: "case_variant needle sub"
      by blast
    from e have "h # hs = (h # ps) @ sub @ ss"
      by simp
    with cv show ?thesis by blast
  qed
qed

text \<open>
  A string that contains \<open>needle\<close> up to the case of ASCII letters contains it under
  the comparison of the code, whatever its other code points are.
\<close>

lemma contains_ascii_ci_lower: "contains_ascii_ci needle hay \<Longrightarrow> contains_ci needle hay"
proof -
  assume "contains_ascii_ci needle hay"
  from contains_ascii_ci_split [OF this] obtain ps sub ss where
    h: "hay = ps @ sub @ ss" and v: "case_variant needle sub"
    by blast
  from v have "lower needle = lower sub"
    by (rule case_variant_lower)
  then have "lower sub = lower needle"
    by simp
  with h have "lower hay = lower ps @ lower needle @ lower ss"
    by (simp add: lower_append)
  then have "sublist (lower needle) (lower hay)"
    unfolding sublist_def by blast
  then show ?thesis
    by (simp add: contains_ci_def str_in_sublist)
qed

lemma lofi_in_lower: "str_in (cps ''lo-fi'') (lower g) = contains_ci (cps ''lo-fi'') g"
proof -
  have "lower (cps ''lo-fi'') = cps ''lo-fi''"
    by (simp add: str_eval)
  then show ?thesis by (simp add: contains_ci_def)
qed

section \<open>Facts about the classifier\<close>

lemma dict_get_numeric:
  "numeric_or_absent d k \<Longrightarrow> dict_get d k (PNum 0) = PNum (num_field d k)"
  by (simp add: numeric_or_absent_def dict_get_def num_field_def
      split: option.splits pyval.splits)

lemma dict_get_genres:
  "genres_or_absent d \<Longrightarrow> dict_get d ''genres'' (PList []) = PList (genre_tags d)"
  by (simp add: genres_or_absent_def dict_get_def genre_tags_def
      split: option.splits pyval.splits)

lemma vibe_rules_numbers:
  "vibe_rules
     [''valence'' \<mapsto> PNum v, ''energy'' \<mapsto> PNum e, ''danceability'' \<mapsto> PNum da,
      ''tempo'' \<mapsto> PNum t, ''genres'' \<mapsto> PList gs]
   = Inr (if 0.7 < v \<and> 0.7 < e then Some ''Hype Gym''
      else if 0.6 < v \<and> 0.6 < da \<and> e < 0.6 then Some ''Chill Vibes''
      else if v < 0.3 \<and> e < 0.5 then Some ''Sad Bops''
      else if 100 \<le> t \<and> t \<le> 130 \<and> 0.5 \<le> e then Some ''Night Drive''
      else if (\<exists>g \<in> set gs. contains_ci (cps ''lo-fi'') g) then Some ''Lo-Fi Focus''
      else if 0.5 \<le> v \<and> e < 0.6 then Some ''Romantic Mood''
      else None)"
  by (simp add: vibe_rules_def dict_get_def py_and_def py_if_def lofi_in_lower Let_def)

lemma vibe_rules_descriptor:
  assumes "descriptor_set d"
  shows "vibe_rules d =
     vibe_rules
       [''valence'' \<mapsto> PNum (num_field d ''valence''),
        ''energy'' \<mapsto> PNum (num_field d ''energy''),
        ''danceability'' \<mapsto> PNum (num_field d ''danceability''),
        ''tempo'' \<mapsto> PNum (num_field d ''tempo''),
        ''genres'' \<mapsto> PList (genre_tags d)]"
proof -
  from assms have
    "dict_get d ''valence'' (PNum 0) = PNum (num_field d ''valence'')"
    "dict_get d ''energy'' (PNum 0) = PNum (num_field d ''energy'')"
    "dict_get d ''danceability'' (PNum 0) = PNum (num_field d ''danceability'')"
    "dict_get d ''tempo'' (PNum 0) = PNum (num_field d ''tempo'')"
    "dict_get d ''genres'' (PList []) = PList (genre_tags d)"
    by (simp_all add: descriptor_set_def dict_get_numeric dict_get_genres)
  then have l: "vibe_rules d =
     (let valence = PNum (num_field d ''valence'');
          energy = PNum (num_field d ''energy'');
          dance = PNum (num_field d ''danceability'');
          tempo = PNum (num_field d ''tempo'')
      in case lower_genres (PList (genre_tags d)) of
           Inl e \<Rightarrow> Inl e
         | Inr genres \<Rightarrow>
             py_if (py_and (py_gt valence 0.7) (py_gt energy 0.7)) (Inr (Some ''Hype Gym''))
            (py_if (py_and (py_and (py_gt valence 0.6) (py_gt dance 0.6)) (py_lt energy 0.6))
               (Inr (Some ''Chill Vibes''))
            (py_if (py_and (py_lt valence 0.3) (py_lt energy 0.5)) (Inr (Some ''Sad Bops''))
            (py_if (py_and (py_and (py_ge tempo 100) (py_le tempo 130)) (py_ge energy 0.5))
               (Inr (Some ''Night Drive''))
            (py_if (Inr (\<exists>g \<in> set genres. str_in (cps ''lo-fi'') g)) (Inr (Some ''Lo-Fi Focus''))
            (py_if (py_and (py_ge valence 0.5) (py_lt energy 0.6)) (Inr (Some ''Romantic Mood''))
               (Inr None)))))))"
    by (simp only: vibe_rules_def)
  show ?thesis
    unfolding l by (simp add: vibe_rules_def dict_get_def)
qed

lemma classify_vibe_cascade:
  assumes "descriptor_set d"
  shows "fst (classify_vibe openai d prompt openai_api_key) =
     Inr (spec_label (num_field d ''valence'') (num_field d ''energy'')
       (num_field d ''danceability'') (num_field d ''tempo'') (genre_tags d))"
  by (simp add: classify_vibe_def vibe_rules_descriptor [OF assms] vibe_rules_numbers
      spec_label_def)

lemma spec_label_in_VIBES: "spec_label v e da t gs \<in> set VIBES"
  by (simp add: spec_label_def VIBES_def)

lemma dict_get_fill_zero:
  "dict_get (fill_zero d) k (PNum 0) = dict_get d k (PNum 0)"
  by (simp add: fill_zero_def dict_get_def)

lemma fill_zero_genres: "dict_get (fill_zero d) ''genres'' dflt = dict_get d ''genres'' dflt"
  by (simp add: fill_zero_def dict_get_def numeric_keys_def)

lemma vibe_rules_fill_zero: "vibe_rules (fill_zero d) = vibe_rules d"
  by (simp only: vibe_rules_def dict_get_fill_zero fill_zero_genres)

lemma vibe_rules_empty: "vibe_rules Map.empty = Inr (Some ''Sad Bops'')"
  by (simp add: vibe_rules_def dict_get_def py_and_def py_if_def)

lemma vibe_rules_genres_case:
  assumes "list_all2 case_variant gs gs'"
  shows "vibe_rules (d(''genres'' \<mapsto> PList gs)) = vibe_rules (d(''genres'' \<mapsto> PList gs'))"
proof -
  from assms have "map lower gs = map lower gs'"
    by (rule case_variants_lower)
  then show ?thesis
    by (simp add: vibe_rules_def dict_get_def)
qed

section \<open>The classifier: rule order, totality, defaults, case\<close>



text \<open>
  C5. On every descriptor set (any subset of the four numeric fields, with or without a
  list of genre strings) the classifier returns a label, and the label is one of the six
  of \<open>VIBES\<close>.
\<close>

theorem classify_vibe_total:
  assumes "descriptor_set d"
  shows "\<exists>vibe. fst (classify_vibe openai d prompt openai_api_key) = Inr vibe
           \<and> vibe \<in> set VIBES"
  using classify_vibe_cascade [OF assms, of openai prompt openai_api_key] spec_label_in_VIBES
  by blast

theorem classify_vibe_total_witness:
  "descriptor_set [''tempo'' \<mapsto> PNum 120, ''energy'' \<mapsto> PNum 0.5, ''genres'' \<mapsto> PList [cps ''rock'']]
   \<and> (\<exists>vibe. fst (classify_vibe None
          [''tempo'' \<mapsto> PNum 120, ''energy'' \<mapsto> PNum 0.5, ''genres'' \<mapsto> PList [cps ''rock'']]
          (Some ''calm'') None) = Inr vibe \<and> vibe \<in> set VIBES)"
proof -
  have h: "descriptor_set
      [''tempo'' \<mapsto> PNum 120, ''energy'' \<mapsto> PNum 0.5, ''genres'' \<mapsto> PList [cps ''rock'']]"
    by (simp add: descriptor_set_def numeric_or_absent_def genres_or_absent_def)
  show ?thesis
    using h classify_vibe_total [OF h, of None "Some ''calm''" None] by simp
qed

text \<open>
  C6, as the code has it. A numeric field whose key is absent is read as zero: the
  classifier gives the descriptor set the result it gives the same set with every absent
  numeric key stored as 0, and on a descriptor set it returns a label and raises nothing.
  The empty descriptor set is classified as Sad Bops: the zeros satisfy rule 3
  (valence below 0.3 and energy below 0.5), which comes before the default.
\<close>

theorem classify_vibe_absent_as_zero:
  "fst (classify_vibe openai d prompt openai_api_key)
     = fst (classify_vibe openai (fill_zero d) prompt openai_api_key)
   \<and> (descriptor_set d \<longrightarrow> (\<exists>vibe. fst (classify_vibe openai d prompt openai_api_key) = Inr vibe))
   \<and> fst (classify_vibe openai Map.empty prompt openai_api_key) = Inr ''Sad Bops''"
proof (intro conjI impI)
  show "fst (classify_vibe openai d prompt openai_api_key)
     = fst (classify_vibe openai (fill_zero d) prompt openai_api_key)"
    by (simp add: classify_vibe_def vibe_rules_fill_zero)
  show "\<exists>vibe. fst (classify_vibe openai d prompt openai_api_key) = Inr vibe"
    if "descriptor_set d"
    using classify_vibe_cascade [OF that, of openai prompt openai_api_key] by blast
  show "fst (classify_vibe openai Map.empty prompt openai_api_key) = Inr ''Sad Bops''"
    by (simp add: classify_vibe_def vibe_rules_empty)
qed

theorem classify_vibe_absent_as_zero_witness:
  "descriptor_set [''valence'' \<mapsto> PNum 0.9]
   \<and> fst (classify_vibe None [''valence'' \<mapsto> PNum 0.9] None None)
       = fst (classify_vibe None (fill_zero [''valence'' \<mapsto> PNum 0.9]) None None)
   \<and> fst (classify_vibe None [''valence'' \<mapsto> PNum 0.9] None None) = Inr ''Romantic Mood''"
proof -
  have h: "descriptor_set [''valence'' \<mapsto> PNum 0.9]"
    by (simp add: descriptor_set_def numeric_or_absent_def genres_or_absent_def)
  have v: "fst (classify_vibe None [''valence'' \<mapsto> PNum 0.9] None None) = Inr ''Romantic Mood''"
    by (simp add: classify_vibe_def vibe_rules_def dict_get_def py_and_def py_if_def)
  show ?thesis
    using h v classify_vibe_absent_as_zero [of None "[''valence'' \<mapsto> PNum 0.9]" None None]
    by simp
qed

text \<open>
  The empty descriptor set does not reach the default: the classifier returns Sad Bops
  for it, not Chill Vibes.
\<close>

theorem classify_vibe_empty_not_chill:
  "fst (classify_vibe None Map.empty None None) = Inr ''Sad Bops''
   \<and> fst (classify_vibe None Map.empty None None) \<noteq> Inr ''Chill Vibes''"
  by (simp add: classify_vibe_def vibe_rules_empty)

lemma classify_vibe_dotted_capital:
  "fst (classify_vibe None [''valence'' \<mapsto> PNum 0.4, ''genres'' \<mapsto> PList [lofi_dotted]]
     None None) = Inr ''Lo-Fi Focus''"
  by (simp add: classify_vibe_def vibe_rules_def dict_get_def py_and_def py_if_def str_eval
      lofi_dotted_def)

text \<open>
  C10, as the code has it. Rule 5 compares genres without regard to letter case: on a
  descriptor set that rules 1 to 4 do not match, the classifier returns Lo-Fi Focus as
  soon as one genre, in small letters, contains \<open>lo-fi\<close>. Every genre that contains
  \<open>lo-fi\<close> up to the case of ASCII letters does, \<open>Lo-Fi Beats\<close> and \<open>lo-fi\<close>
  among them. Replacing the genre strings by strings that differ from them in the case
  of ASCII letters only leaves the result of the classifier unchanged.
\<close>

theorem lofi_rule_case_insensitive:
  "(let valence = num_field d ''valence''; energy = num_field d ''energy'';
        dance = num_field d ''danceability''; tempo = num_field d ''tempo''
    in descriptor_set d
       \<and> \<not> (0.7 < valence \<and> 0.7 < energy)
       \<and> \<not> (0.6 < valence \<and> 0.6 < dance \<and> energy < 0.6)
       \<and> \<not> (valence < 0.3 \<and> energy < 0.5)
       \<and> \<not> (100 \<le> tempo \<and> tempo \<le> 130 \<and> 0.5 \<le> energy)
       \<and> (\<exists>g \<in> set (genre_tags d). contains_ci (cps ''lo-fi'') g)
       \<longrightarrow> fst (classify_vibe openai d prompt openai_api_key) = Inr ''Lo-Fi Focus'')
   \<and> (contains_ascii_ci (cps ''lo-fi'') g \<longrightarrow> contains_ci (cps ''lo-fi'') g)
   \<and> (list_all2 case_variant gs gs' \<longrightarrow>
        fst (classify_vibe openai (d(''genres'' \<mapsto> PList gs)) prompt openai_api_key)
          = fst (classify_vibe openai (d(''genres'' \<mapsto> PList gs')) prompt openai_api_key))
   \<and> contains_ascii_ci (cps ''lo-fi'') (cps ''Lo-Fi Beats'')
   \<and> contains_ascii_ci (cps ''lo-fi'') (cps ''lo-fi'')"
proof (intro conjI)
  show "let valence = num_field d ''valence''; energy = num_field d ''energy'';
        dance = num_field d ''danceability''; tempo = num_field d ''tempo''
    in descriptor_set d
       \<and> \<not> (0.7 < valence \<and> 0.7 < energy)
       \<and> \<not> (0.6 < valence \<and> 0.6 < dance \<and> energy < 0.6)
       \<and> \<not> (valence < 0.3 \<and> energy < 0.5)
       \<and> \<not> (100 \<le> tempo \<and> tempo \<le> 130 \<and> 0.5 \<le> energy)
       \<and> (\<exists>g \<in> set (genre_tags d). contains_ci (cps ''lo-fi'') g)
       \<longrightarrow> fst (classify_vibe openai d prompt openai_api_key) = Inr ''Lo-Fi Focus''"
    unfolding Let_def
  proof (intro impI, elim conjE)
    assume ds: "descriptor_set d"
    assume r: "\<not> (0.7 < num_field d ''valence'' \<and> 0.7 < num_field d ''energy'')"
      "\<not> (0.6 < num_field d ''valence'' \<and> 0.6 < num_field d ''danceability''
          \<and> num_field d ''energy'' < 0.6)"
      "\<not> (num_field d ''valence'' < 0.3 \<and> num_field d ''energy'' < 0.5)"
      "\<not> (100 \<le> num_field d ''tempo'' \<and> num_field d ''tempo'' \<le> 130
          \<and> 0.5 \<le> num_field d ''energy'')"
      "\<exists>g \<in> set (genre_tags d). contains_ci (cps ''lo-fi'') g"
    have "spec_label (num_field d ''valence'') (num_field d ''energy'')
       (num_field d ''danceability'') (num_field d ''tempo'') (genre_tags d) = ''Lo-Fi Focus''"
      unfolding spec_label_def using r by (simp only: if_False if_True)
    then show "fst (classify_vibe openai d prompt openai_api_key) = Inr ''Lo-Fi Focus''"
      by (simp add: classify_vibe_cascade [OF ds])
  qed
  show "contains_ascii_ci (cps ''lo-fi'') g \<longrightarrow> contains_ci (cps ''lo-fi'') g"
    by (simp add: contains_ascii_ci_lower)
  show "list_all2 case_variant gs gs' \<longrightarrow>
        fst (classify_vibe openai (d(''genres'' \<mapsto> PList gs)) prompt openai_api_key)
          = fst (classify_vibe openai (d(''genres'' \<mapsto> PList gs')) prompt openai_api_key)"
    by (simp add: classify_vibe_def vibe_rules_genres_case)
  show "contains_ascii_ci (cps ''lo-fi'') (cps ''Lo-Fi Beats'')"
    by (simp add: cps_def same_letter_def)
  show "contains_ascii_ci (cps ''lo-fi'') (cps ''lo-fi'')"
    by (simp add: cps_def same_letter_def)
qed

theorem lofi_rule_case_insensitive_witness:
  "descriptor_set [''valence'' \<mapsto> PNum 0.4, ''genres'' \<mapsto> PList [cps ''Lo-Fi Beats'']]
   \<and> contains_ascii_ci (cps ''lo-fi'') (cps ''Lo-Fi Beats'')
   \<and> contains_ci (cps ''lo-fi'') (cps ''Lo-Fi Beats'')
   \<and> list_all2 case_variant [cps ''Lo-Fi Beats''] [cps ''LO-FI beats'']
   \<and> fst (classify_vibe None
        [''valence'' \<mapsto> PNum 0.4, ''genres'' \<mapsto> PList [cps ''Lo-Fi Beats'']] None None)
       = Inr ''Lo-Fi Focus''
   \<and> fst (classify_vibe None
        [''valence'' \<mapsto> PNum 0.4, ''genres'' \<mapsto> PList [cps ''LO-FI beats'']] None None)
       = Inr ''Lo-Fi Focus''"
proof -
  let ?d = "[''valence'' \<mapsto> PNum 0.4, ''genres'' \<mapsto> PList [cps ''Lo-Fi Beats'']]"
  let ?e = "[''valence'' \<mapsto> PNum 0.4, ''genres'' \<mapsto> PList [cps ''LO-FI beats'']]"
  have h: "descriptor_set ?d"
    by (simp add: descriptor_set_def numeric_or_absent_def genres_or_absent_def)
  have cv: "list_all2 case_variant [cps ''Lo-Fi Beats''] [cps ''LO-FI beats'']"
    by (simp add: case_variant_def cps_def same_letter_def)
  have n: "num_field ?d ''valence'' = 0.4" "num_field ?d ''energy'' = 0"
    "num_field ?d ''danceability'' = 0" "num_field ?d ''tempo'' = 0"
    "genre_tags ?d = [cps ''Lo-Fi Beats'']"
    by (simp_all add: num_field_def genre_tags_def)
  have u: "?d(''genres'' \<mapsto> PList [cps ''Lo-Fi Beats'']) = ?d"
    "?d(''genres'' \<mapsto> PList [cps ''LO-FI beats'']) = ?e"
    by simp_all
  note t = lofi_rule_case_insensitive
      [of ?d None None None "cps ''Lo-Fi Beats''" "[cps ''Lo-Fi Beats'']" "[cps ''LO-FI beats'']",
        unfolded Let_def n u]
  from t have a: "contains_ascii_ci (cps ''lo-fi'') (cps ''Lo-Fi Beats'')"
    by (rule conjunct2 [THEN conjunct2, THEN conjunct2, THEN conjunct1])
  from t have "contains_ascii_ci (cps ''lo-fi'') (cps ''Lo-Fi Beats'')
      \<longrightarrow> contains_ci (cps ''lo-fi'') (cps ''Lo-Fi Beats'')"
    by (rule conjunct2 [THEN conjunct1])
  from this a have c: "contains_ci (cps ''lo-fi'') (cps ''Lo-Fi Beats'')"
    by (rule mp)
  from t have t1: "descriptor_set ?d
       \<and> \<not> (0.7 < (0.4::real) \<and> 0.7 < (0::real))
       \<and> \<not> (0.6 < (0.4::real) \<and> 0.6 < (0::real) \<and> (0::real) < 0.6)
       \<and> \<not> ((0.4::real) < 0.3 \<and> (0::real) < 0.5)
       \<and> \<not> (100 \<le> (0::real) \<and> (0::real) \<le> 130 \<and> 0.5 \<le> (0::real))
       \<and> (\<exists>g \<in> set [cps ''Lo-Fi Beats'']. contains_ci (cps ''lo-fi'') g)
       \<longrightarrow> fst (classify_vibe None ?d None None) = Inr ''Lo-Fi Focus''"
    by (rule conjunct1)
  have p: "descriptor_set ?d
       \<and> \<not> (0.7 < (0.4::real) \<and> 0.7 < (0::real))
       \<and> \<not> (0.6 < (0.4::real) \<and> 0.6 < (0::real) \<and> (0::real) < 0.6)
       \<and> \<not> ((0.4::real) < 0.3 \<and> (0::real) < 0.5)
       \<and> \<not> (100 \<le> (0::real) \<and> (0::real) \<le> 130 \<and> 0.5 \<le> (0::real))
       \<and> (\<exists>g \<in> set [cps ''Lo-Fi Beats'']. contains_ci (cps ''lo-fi'') g)"
    using h c by simp
  from t1 p have r1: "fst (classify_vibe None ?d None None) = Inr ''Lo-Fi Focus''"
    by (rule mp)
  from t have t2: "list_all2 case_variant [cps ''Lo-Fi Beats''] [cps ''LO-FI beats''] \<longrightarrow>
      fst (classify_vibe None ?d None None) = fst (classify_vibe None ?e None None)"
    by (rule conjunct2 [THEN conjunct2, THEN conjunct1])
  from t2 cv have "fst (classify_vibe None ?d None None) = fst (classify_vibe None ?e None None)"
    by (rule mp)
  with r1 have r2: "fst (classify_vibe None ?e None None) = Inr ''Lo-Fi Focus''"
    by simp
  from h a c cv r1 r2 show ?thesis
    by (intro conjI)
qed

text \<open>
  Letter case beyond ASCII can change the result. The genre \<open>lo-f\<close> followed by a
  dotless small i stays as it is in small letters and is not matched; in capitals it is
  \<open>LO-FI\<close>, which is matched.
\<close>

theorem lofi_case_alteration_changes_label:
  "upper lofi_dotless = lofi_capitals
   \<and> fst (classify_vibe None [''valence'' \<mapsto> PNum 0.4, ''genres'' \<mapsto> PList [lofi_dotless]]
        None None) = Inr ''Chill Vibes''
   \<and> fst (classify_vibe None
        [''valence'' \<mapsto> PNum 0.4, ''genres'' \<mapsto> PList [upper lofi_dotless]] None None)
       = Inr ''Lo-Fi Focus''"
proof -
  have u: "upper lofi_dotless = lofi_capitals"
    by (simp add: upper_def upper_cp_def upper_table_def cps_def lofi_dotless_def
        lofi_capitals_def)
  have "fst (classify_vibe None [''valence'' \<mapsto> PNum 0.4, ''genres'' \<mapsto> PList [lofi_dotless]]
        None None) = Inr ''Chill Vibes''"
    by (simp add: classify_vibe_def vibe_rules_def dict_get_def py_and_def py_if_def str_eval
        lofi_dotless_def)
  moreover have "fst (classify_vibe None
        [''valence'' \<mapsto> PNum 0.4, ''genres'' \<mapsto> PList [lofi_capitals]] None None)
       = Inr ''Lo-Fi Focus''"
    by (simp add: classify_vibe_def vibe_rules_def dict_get_def py_and_def py_if_def str_eval
        lofi_capitals_def)
  ultimately show ?thesis
    by (simp only: u simp_thms)
qed

text \<open>
  C8. The label that \<open>classify_vibe\<close> returns does not depend on the prompt and the
  credential: with any prompt and any key the result (label or exception) is the one
  obtained with neither. There is no call to a service in the function; all the hook can
  do is store the key in the \<open>openai\<close> module, and without prompt and key it leaves the
  module as it was.
\<close>

theorem classify_vibe_hook_inert:
  "fst (classify_vibe openai features prompt openai_api_key)
     = fst (classify_vibe openai features None None)
   \<and> snd (classify_vibe openai features None None) = openai
   \<and> (snd (classify_vibe openai features prompt openai_api_key) = openai
      \<or> snd (classify_vibe openai features prompt openai_api_key)
          = map_option (\<lambda>m. m\<lparr>api_key := openai_api_key\<rparr>) openai)"
  by (simp add: classify_vibe_def truthy_def split: sum.split option.split)

section \<open>The paginated fetcher: requests, pages and termination\<close>

lemma fetch_loop_run:
  "\<exists>new. snd (fetch_loop sp cap tracks (length tracks) calls) = calls @ new
     \<and> fst (fetch_loop sp cap tracks (length tracks) calls) = tracks @ concat (map snd new)
     \<and> requests_ok cap (length tracks) new
     \<and> answered_by sp (map fst calls) new
     \<and> [] \<notin> set (butlast (map snd new))
     \<and> ((new \<noteq> [] \<and> snd (last new) = []) \<or> cap \<le> int (length tracks + length (concat (map snd new))))
     \<and> int (length new) \<le> max 0 (cap - int (length tracks))"
proof (induction sp cap tracks "length tracks" calls rule: fetch_loop.induct)
  case (1 sp limit tracks calls)
  show ?case
  proof (cases "int (length tracks) < limit")
    case False
    then show ?thesis
      by (subst (1 2) fetch_loop.simps) simp
  next
    case True
    define req where "req = (min 50 (limit - int (length tracks)), length tracks)"
    define items where "items = batch_items (sp (map fst calls) req)"
    show ?thesis
    proof (cases "items = []")
      case e: True
      have "fetch_loop sp limit tracks (length tracks) calls = (tracks, calls @ [(req, items)])"
        using True e by (subst fetch_loop.simps) (simp add: req_def items_def Let_def)
      then show ?thesis
        using True e by (intro exI [of _ "[(req, items)]"]) (simp add: req_def items_def)
    next
      case ne: False
      have step: "fetch_loop sp limit tracks (length tracks) calls =
          fetch_loop sp limit (tracks @ items) (length (tracks @ items)) (calls @ [(req, items)])"
        using True ne by (subst fetch_loop.simps) (simp add: req_def items_def Let_def)
      from "1.hyps" [OF True req_def items_def ne]
      obtain new where n:
        "snd (fetch_loop sp limit (tracks @ items) (length (tracks @ items)) (calls @ [(req, items)]))
           = (calls @ [(req, items)]) @ new"
        "fst (fetch_loop sp limit (tracks @ items) (length (tracks @ items)) (calls @ [(req, items)]))
           = (tracks @ items) @ concat (map snd new)"
        "requests_ok limit (length (tracks @ items)) new"
        "answered_by sp (map fst (calls @ [(req, items)])) new"
        "[] \<notin> set (butlast (map snd new))"
        "(new \<noteq> [] \<and> snd (last new) = [])
           \<or> limit \<le> int (length (tracks @ items) + length (concat (map snd new)))"
        "int (length new) \<le> max 0 (limit - int (length (tracks @ items)))"
        by auto
      have len: "1 \<le> int (length items)" using ne by (cases items) simp_all
      show ?thesis
      proof (intro exI [of _ "(req, items) # new"] conjI)
        show "snd (fetch_loop sp limit tracks (length tracks) calls) = calls @ (req, items) # new"
          using n(1) step by simp
        show "fst (fetch_loop sp limit tracks (length tracks) calls)
            = tracks @ concat (map snd ((req, items) # new))"
          using n(2) step by simp
        show "requests_ok limit (length tracks) ((req, items) # new)"
          using n(3) by (simp add: req_def)
        show "answered_by sp (map fst calls) ((req, items) # new)"
          using n(4) by (simp add: items_def)
        show "[] \<notin> set (butlast (map snd ((req, items) # new)))"
          using n(5) ne by simp
        show "((req, items) # new \<noteq> [] \<and> snd (last ((req, items) # new)) = [])
           \<or> limit \<le> int (length tracks + length (concat (map snd ((req, items) # new))))"
          using n(6) by auto
        show "int (length ((req, items) # new)) \<le> max 0 (limit - int (length tracks))"
        proof -
          have "int (length new) \<le> max 0 (limit - int (length tracks) - int (length items))"
            using n(7) by (simp add: algebra_simps)
          with len True have "1 + int (length new) \<le> max 0 (limit - int (length tracks))"
            by arith
          then show ?thesis by simp
        qed
      qed
    qed
  qed
qed

lemma requests_ok_offsets:
  "requests_ok cap n new \<Longrightarrow> r \<in> set new \<Longrightarrow> n \<le> snd (fst r)"
proof (induction new arbitrary: n)
  case Nil
  then show ?case by simp
next
  case (Cons a new)
  obtain req page where a: "a = (req, page)" by (cases a)
  from Cons.prems show ?case
    unfolding a using Cons.IH [of "n + length page"] by auto
qed

lemma requests_ok_increasing:
  "requests_ok cap n new \<Longrightarrow> [] \<notin> set (butlast (map snd new))
     \<Longrightarrow> sorted_wrt (<) (map (snd \<circ> fst) new)"
proof (induction new arbitrary: n)
  case Nil
  then show ?case by simp
next
  case (Cons a new)
  obtain req page where a: "a = (req, page)" by (cases a)
  show ?case
  proof (cases "new = []")
    case True
    then show ?thesis by simp
  next
    case False
    with Cons.prems have pg: "page \<noteq> []" and rest: "[] \<notin> set (butlast (map snd new))"
      by (auto simp: a)
    from Cons.prems have ok: "requests_ok cap (n + length page) new" and rq: "snd req = n"
      by (auto simp: a)
    have "n < snd (fst r)" if "r \<in> set new" for r
      using requests_ok_offsets [OF ok that] pg by (cases page) auto
    with Cons.IH [OF ok rest] rq show ?thesis
      by (auto simp: a)
  qed
qed

lemma requests_ok_within_cap:
  "requests_ok cap n new \<Longrightarrow> within_requests new \<Longrightarrow> int n \<le> cap
     \<Longrightarrow> int (n + length (concat (map snd new))) \<le> cap"
proof (induction new arbitrary: n)
  case Nil
  then show ?case by simp
next
  case (Cons a new)
  obtain req page where a: "a = (req, page)" by (cases a)
  from Cons.prems have ok: "requests_ok cap (n + length page) new"
    and w: "within_requests new" and le: "int (length page) \<le> min 50 (cap - int n)"
    by (auto simp: a)
  from le have "int (n + length page) \<le> cap" by simp
  from Cons.IH [OF ok w this] show ?case
    by (simp add: a add.assoc)
qed

lemma fetch_liked_songs_run:
  "snd (fetch_liked_songs sp cap) = calls \<Longrightarrow>
     fst (fetch_liked_songs sp cap) = concat (map snd calls)
     \<and> requests_ok cap 0 calls
     \<and> answered_by sp [] calls
     \<and> [] \<notin> set (butlast (map snd calls))
     \<and> ((calls \<noteq> [] \<and> snd (last calls) = []) \<or> cap \<le> int (length (concat (map snd calls))))
     \<and> int (length calls) \<le> max 0 cap"
  using fetch_loop_run [of sp cap "[]" "[]"] by (auto simp: fetch_liked_songs_def)

lemma fetch_small_library:
  "fetch_liked_songs (library_pages [0..<7]) 120 = ([0..<7], [((50, 0), [0..<7]), ((50, 7), [])])"
  by (simp add: fetch_liked_songs_def fetch_loop.simps library_pages_def batch_items_def Let_def)

lemma fetch_always_50:
  "fetch_liked_songs always_50 120 =
     (replicate 50 0 @ replicate 50 0 @ replicate 50 0,
      [((50, 0), replicate 50 0), ((50, 50), replicate 50 0), ((20, 100), replicate 50 0)])"
  by (simp add: fetch_liked_songs_def fetch_loop.simps always_50_def batch_items_def Let_def)

lemma fetch_cap_120:
  "fetch_liked_songs (library_pages [0..<200]) 120 =
     ([0..<50] @ [50..<100] @ [100..<120],
      [((50, 0), [0..<50]), ((50, 50), [50..<100]), ((20, 100), [100..<120])])"
  by (simp add: fetch_liked_songs_def fetch_loop.simps library_pages_def batch_items_def Let_def)

text \<open>
  C3, as the code has it. For every cap and every service, each request asks for
  \<open>min(50, cap - collected)\<close> items at the offset \<open>collected\<close>, the number of items
  returned so far; each page is the service's answer to its request; the list returned is
  the pages one after the other. Its length is at most the cap when the cap is not
  negative and no page holds more items than were asked for. With a cap of 120 on a
  library of 200 tracks there are three requests, for 50, 50 and 20 items, and the first
  120 tracks come back in order.
\<close>

theorem fetch_liked_songs_pages:
  "(case fetch_liked_songs sp cap of (tracks, calls) \<Rightarrow>
      requests_ok cap 0 calls \<and> answered_by sp [] calls \<and> tracks = concat (map snd calls)
      \<and> (0 \<le> cap \<and> within_requests calls \<longrightarrow> int (length tracks) \<le> cap))
   \<and> fetch_liked_songs (library_pages [0..<200]) 120 =
       ([0..<120], [((50, 0), [0..<50]), ((50, 50), [50..<100]), ((20, 100), [100..<120])])"
proof (intro conjI)
  obtain tracks calls where r: "fetch_liked_songs sp cap = (tracks, calls)"
    by (cases "fetch_liked_songs sp cap")
  then have c: "snd (fetch_liked_songs sp cap) = calls" by simp
  note f = fetch_liked_songs_run [OF c]
  from f r have t: "tracks = concat (map snd calls)" by simp
  have "int (length tracks) \<le> cap" if "0 \<le> cap" "within_requests calls"
    using requests_ok_within_cap [of cap 0 calls] f that by (simp add: t)
  with f t show "case fetch_liked_songs sp cap of (tracks, calls) \<Rightarrow>
      requests_ok cap 0 calls \<and> answered_by sp [] calls \<and> tracks = concat (map snd calls)
      \<and> (0 \<le> cap \<and> within_requests calls \<longrightarrow> int (length tracks) \<le> cap)"
    by (simp add: r)
  have "[0..<50] @ [50..<100] @ [100..<120] = [0..<120]"
    by code_simp
  then show "fetch_liked_songs (library_pages [0..<200]) 120 =
       ([0..<120], [((50, 0), [0..<50]), ((50, 50), [50..<100]), ((20, 100), [100..<120])])"
    by (simp only: fetch_cap_120)
qed

theorem fetch_liked_songs_pages_witness:
  "(0::int) \<le> 120
   \<and> within_requests (snd (fetch_liked_songs (library_pages [0..<7]) 120))
   \<and> int (length (fst (fetch_liked_songs (library_pages [0..<7]) 120))) \<le> 120
   \<and> fst (fetch_liked_songs (library_pages [0..<7]) 120) = [0..<7]"
  using fetch_liked_songs_pages [where sp = "library_pages [0..<7]" and cap = 120]
  by (simp add: fetch_small_library)

text \<open>
  A service that answers the request for the last 20 items with a page of 50 makes the
  fetcher return 150 items under a cap of 120.
\<close>

theorem fetch_liked_songs_over_cap:
  "map fst (snd (fetch_liked_songs always_50 120)) = [(50, 0), (50, 50), (20, 100)]
   \<and> length (fst (fetch_liked_songs always_50 120)) = 150
   \<and> \<not> int (length (fst (fetch_liked_songs always_50 120))) \<le> 120"
  by (simp add: fetch_always_50)

text \<open>
  C4. The fetch loop ends for every service: with cap \<open>cap\<close> it makes at most \<open>cap\<close>
  requests. A page without items can only be the last one, so the run stops at it and
  what is returned is the pages collected before; as long as pages have items the offsets
  of the requests, which are the counts collected so far, increase strictly, and the run
  ends either at an empty page or with the cap reached.
\<close>

theorem fetch_liked_songs_stops:
  "case fetch_liked_songs sp cap of (tracks, calls) \<Rightarrow>
     int (length calls) \<le> max 0 cap
     \<and> answered_by sp [] calls
     \<and> [] \<notin> set (butlast (map snd calls))
     \<and> tracks = concat (map snd calls)
     \<and> sorted_wrt (<) (map (snd \<circ> fst) calls)
     \<and> ((calls \<noteq> [] \<and> snd (last calls) = []) \<or> cap \<le> int (length tracks))"
proof -
  obtain tracks calls where r: "fetch_liked_songs sp cap = (tracks, calls)"
    by (cases "fetch_liked_songs sp cap")
  then have c: "snd (fetch_liked_songs sp cap) = calls" by simp
  note f = fetch_liked_songs_run [OF c]
  from f r have t: "tracks = concat (map snd calls)" by simp
  have "sorted_wrt (<) (map (snd \<circ> fst) calls)"
    using requests_ok_increasing [of cap 0 calls] f by simp
  with f t show ?thesis
    by (simp add: r)
qed

theorem fetch_liked_songs_stops_witness:
  "fetch_liked_songs (library_pages [0..<7]) 120 = ([0..<7], [((50, 0), [0..<7]), ((50, 7), [])])
   \<and> int (length (snd (fetch_liked_songs (library_pages [0..<7]) 120))) \<le> max 0 120
   \<and> snd (last (snd (fetch_liked_songs (library_pages [0..<7]) 120))) = []"
  using fetch_liked_songs_stops [where sp = "library_pages [0..<7]" and cap = 120]
  by (simp add: fetch_small_library)

section \<open>The feature aggregator: what the two passes do to an entry\<close>

lemmas agg_eval = get_audio_features_def track_objects_def List.map_filter_simps
  numeric_pass.simps genre_pass.simps store_af_def dict_get_def item_of_def Let_def
  features_get_def

lemma store_af_null: "store_af None features = features"
  by (simp add: store_af_def)

lemma merge_genres_keeps_numeric:
  "merge_genres zs features = Inr features' \<Longrightarrow> features tid = Some d
     \<Longrightarrow> \<exists>d'. features' tid = Some d' \<and> (\<forall>k. k \<noteq> ''genres'' \<longrightarrow> d' k = d k)"
proof (induction zs arbitrary: features d)
  case Nil
  then show ?case by simp
next
  case (Cons z zs)
  obtain item artist where z: "z = (item, artist)" by (cases z)
  from Cons.prems(1) obtain t where t: "track item = Some t"
    by (cases "track item") (simp_all add: z)
  define g where "g = dict_get artist ''genres'' (PList [])"
  define f1 where "f1 = (case features (track_id t) of
       Some d \<Rightarrow> features(track_id t \<mapsto> d(''genres'' \<mapsto> g))
     | None \<Rightarrow> features(track_id t \<mapsto> [''genres'' \<mapsto> g]))"
  from Cons.prems(1) have m: "merge_genres zs f1 = Inr features'"
    unfolding f1_def g_def by (simp add: z t Let_def)
  have "\<exists>d1. f1 tid = Some d1 \<and> (\<forall>k. k \<noteq> ''genres'' \<longrightarrow> d1 k = d k)"
    using Cons.prems(2) by (cases "features (track_id t)") (auto simp: f1_def)
  then obtain d1 where d1: "f1 tid = Some d1" "\<forall>k. k \<noteq> ''genres'' \<longrightarrow> d1 k = d k"
    by blast
  from Cons.IH [OF m d1(1)] d1(2) show ?case
    by auto
qed

lemma genre_pass_keeps_numeric:
  "genre_pass sp tracks artist_ids chunk features = Inr features' \<Longrightarrow> features tid = Some d
     \<Longrightarrow> \<exists>d'. features' tid = Some d' \<and> (\<forall>k. k \<noteq> ''genres'' \<longrightarrow> d' k = d k)"
proof (induction sp tracks artist_ids chunk features arbitrary: d rule: genre_pass.induct)
  case (1 sp tracks artist_ids chunk features)
  show ?case
  proof (cases "chunk < length artist_ids")
    case False
    with "1.prems" show ?thesis
      by (simp add: genre_pass.simps)
  next
    case True
    define ids where "ids = take 50 (drop chunk artist_ids)"
    define arts where "arts = artists sp ids"
    from "1.prems"(1) True obtain f1 where
      m: "merge_genres (zip (take (length ids) (drop chunk tracks)) arts) features = Inr f1"
      and r: "genre_pass sp tracks artist_ids (chunk + 50) f1 = Inr features'"
      by (subst (asm) genre_pass.simps)
        (auto simp: ids_def arts_def Let_def split: sum.splits)
    from merge_genres_keeps_numeric [OF m "1.prems"(2)]
    obtain d1 where d1: "f1 tid = Some d1" "\<forall>k. k \<noteq> ''genres'' \<longrightarrow> d1 k = d k"
      by blast
    from "1.IH" [OF True ids_def arts_def m r d1(1)] d1(2) show ?thesis
      by auto
  qed
qed

text \<open>
  When the aggregator returns, every entry the numeric pass made is in the result with
  its four numeric fields as that pass stored them.
\<close>

lemma get_audio_features_keeps_numeric:
  assumes "get_audio_features sp tracks = Inr features'"
    and "numeric_pass sp (map track_id (track_objects tracks)) 0 Map.empty tid = Some d"
  shows "\<exists>d'. features' tid = Some d' \<and> (\<forall>k. k \<noteq> ''genres'' \<longrightarrow> d' k = d k)"
  using assms genre_pass_keeps_numeric
  by (simp add: get_audio_features_def Let_def)

text \<open>
  A feature record that omits its values is stored with \<open>None\<close> under the four keys,
  and the classifier raises \<open>TypeError\<close> on the descriptor set made from it.
\<close>

lemma classify_vibe_on_bare_record:
  "case get_audio_features bare_service [item_of ''t1'' [''a1'']] of
     Inl e \<Rightarrow> False
   | Inr features \<Rightarrow>
       features_get features ''t1'' ''valence'' = Some PNone
       \<and> fst (classify_vibe None (features_get features ''t1'') None None) = Inl TypeError"
  by (simp add: agg_eval bare_service_def classify_vibe_def vibe_rules_def py_and_def py_if_def)

text \<open>
  C1. The genre pass pairs the artists with \<open>tracks[chunk : chunk + len(ids)]\<close>, the
  unfiltered list, while the artist identifiers come from the entries that have a track
  object and a listed artist. On three tracks, the first without a listed artist, the
  first track gets the genres of the second track's artist, the second track those of the
  third track's artist, and the third track gets none.
\<close>

theorem genres_merged_under_wrong_track:
  "case get_audio_features tagged_service
          [item_of ''t0'' [], item_of ''t1'' [''a1''], item_of ''t2'' [''a2'']] of
     Inl e \<Rightarrow> False
   | Inr features \<Rightarrow>
       features_get features ''t0'' ''genres'' = Some (PList [cps ''genre of a1''])
       \<and> features_get features ''t1'' ''genres'' = Some (PList [cps ''genre of a2''])
       \<and> features_get features ''t2'' ''genres'' = None"
  by (simp add: agg_eval tagged_service_def)

text \<open>
  C7. With an entry that has no track object at the head of the list, the genre pass
  reads the identifier of that entry and the aggregator raises \<open>TypeError\<close>: no mapping
  is returned, although the numeric pass had stored the features of both tracks.
\<close>

theorem aggregator_fatal_on_missing_track:
  "(case numeric_pass full_service [''t1'', ''t2''] 0 Map.empty ''t1'' of
      None \<Rightarrow> False
    | Some d \<Rightarrow> d ''valence'' = Some (PNum 0.8))
   \<and> get_audio_features full_service [no_track, item_of ''t1'' [], item_of ''t2'' [''a2'']]
       = Inl TypeError"
  by (simp add: agg_eval full_service_def no_track_def)

section \<open>The playlist materializer: empty groups\<close>

lemma playlist_add_items_names:
  "map pl_name (playlist_add_items acct pid items) = map pl_name acct"
  by (simp add: playlist_add_items_def comp_def)

lemma playlists_loop_dom:
  "dom (fst (playlists_loop new_id user_id vibe_tracks playlist_ids acct))
     = dom playlist_ids \<union> set (nonempty_groups vibe_tracks)"
proof (induction vibe_tracks arbitrary: playlist_ids acct)
  case Nil
  show ?case by (simp add: nonempty_groups_def)
next
  case (Cons g rest)
  obtain vibe tracks where g: "g = (vibe, tracks)" by (cases g)
  show ?case
    unfolding g
    by (auto simp add: Cons.IH nonempty_groups_def user_playlist_create_def Let_def
        split: if_splits)
qed

lemma playlists_loop_names:
  "map pl_name (snd (playlists_loop new_id user_id vibe_tracks playlist_ids acct))
     = map pl_name acct @ nonempty_groups vibe_tracks"
proof (induction vibe_tracks arbitrary: playlist_ids acct)
  case Nil
  show ?case by (simp add: nonempty_groups_def)
next
  case (Cons g rest)
  obtain vibe tracks where g: "g = (vibe, tracks)" by (cases g)
  show ?case
    unfolding g
    by (simp add: Cons.IH nonempty_groups_def user_playlist_create_def Let_def
        playlist_add_items_names)
qed

lemma empty_group_not_listed:
  assumes "distinct (map fst vibe_tracks)" and "(vibe, []) \<in> set vibe_tracks"
  shows "vibe \<notin> set (nonempty_groups vibe_tracks)"
proof
  assume "vibe \<in> set (nonempty_groups vibe_tracks)"
  then obtain tracks where t: "(vibe, tracks) \<in> set vibe_tracks" "tracks \<noteq> []"
    by (auto simp: nonempty_groups_def)
  from eq_key_imp_eq_value [OF assms(1) t(1) assms(2)] have "tracks = []" .
  with t(2) show False by simp
qed

text \<open>
  C9. For every grouping (a dictionary, so no label occurs twice) the labels of the
  returned mapping are exactly the labels with at least one track, the playlists added
  to the account are one per such label, named after it, in order, and a label whose
  track list is empty is not in the returned mapping.
\<close>

theorem create_playlists_skips_empty:
  assumes "distinct (map fst vibe_tracks)"
  shows "case create_playlists new_id acct user_id vibe_tracks of (playlist_ids, acct') \<Rightarrow>
     dom playlist_ids = set (nonempty_groups vibe_tracks)
     \<and> map pl_name acct' = map pl_name acct @ nonempty_groups vibe_tracks
     \<and> (\<forall>vibe. (vibe, []) \<in> set vibe_tracks \<longrightarrow> playlist_ids vibe = None)"
proof -
  obtain playlist_ids acct' where
    r: "create_playlists new_id acct user_id vibe_tracks = (playlist_ids, acct')"
    by (cases "create_playlists new_id acct user_id vibe_tracks")
  have d: "dom playlist_ids = set (nonempty_groups vibe_tracks)"
    using playlists_loop_dom [of new_id user_id vibe_tracks Map.empty acct] r
    by (simp add: create_playlists_def)
  have n: "map pl_name acct' = map pl_name acct @ nonempty_groups vibe_tracks"
    using playlists_loop_names [of new_id user_id vibe_tracks Map.empty acct] r
    by (simp add: create_playlists_def)
  have "playlist_ids vibe = None" if "(vibe, []) \<in> set vibe_tracks" for vibe
    using empty_group_not_listed [OF assms that] d by auto
  with d n show ?thesis
    by (simp add: r)
qed

theorem create_playlists_skips_empty_witness:
  "distinct (map fst
     [(''Hype Gym'', [''t1'']), (''Sad Bops'', []), (''Chill Vibes'', [''t3'', ''t4''])])
   \<and> fst (create_playlists numbered_id [] ''u''
        [(''Hype Gym'', [''t1'']), (''Sad Bops'', []), (''Chill Vibes'', [''t3'', ''t4''])])
        ''Sad Bops'' = None
   \<and> map pl_name (snd (create_playlists numbered_id [] ''u''
        [(''Hype Gym'', [''t1'']), (''Sad Bops'', []), (''Chill Vibes'', [''t3'', ''t4''])]))
       = [''Hype Gym'', ''Chill Vibes'']"
proof -
  let ?vt = "[(''Hype Gym'', [''t1'']), (''Sad Bops'', []), (''Chill Vibes'', [''t3'', ''t4''])]"
  have h: "distinct (map fst ?vt)"
    by simp
  have m: "(''Sad Bops'', []) \<in> set ?vt"
    by simp
  obtain playlist_ids acct' where
    r: "create_playlists numbered_id [] ''u'' ?vt = (playlist_ids, acct')"
    by (cases "create_playlists numbered_id [] ''u'' ?vt")
  from create_playlists_skips_empty
      [OF h, where new_id = numbered_id and acct = "[]" and user_id = "''u''"] m
  have "playlist_ids ''Sad Bops'' = None"
    and "map pl_name acct' = nonempty_groups ?vt"
    unfolding r by auto
  with h show ?thesis
    unfolding r by (simp add: nonempty_groups_def)
qed

end
